theory Spec2Isabelle
  imports Main
begin

section \<open>Text, files and lines\<close>

text \<open>
  A Python \<open>str\<close> is modelled by \<open>string\<close>. A \<open>char\<close> stands for a code point
  below 256; among those the only characters that the pattern class \<open>\d\<close> and
  \<open>int()\<close> accept as decimal digits are \<open>0\<close> .. \<open>9\<close>.

  The file system is a map from a path to the text of the file, as Python's text
  layer presents it (decoded, line ends normalised to the newline character,
  which is what \<open>open(path, 'r')\<close> and \<open>open(path, 'w')\<close> read and write).
  Printing appends one entry to \<open>stdout\<close>.

  A path that is not in the map cannot be opened for reading; that is the one
  failure of \<open>open\<close> the model has. Opening an absent path for writing always
  creates the file.
\<close>

datatype error = FileNotFoundError string

record world =
  files :: "string \<rightharpoonup> string"
  stdout :: "string list"

text \<open>\<open>open(filepath, 'r')\<close>: the text of the file, or the exception.\<close>

definition open_read :: "world \<Rightarrow> string \<Rightarrow> error + string" where
  "open_read w filepath =
     (case files w filepath of
        None \<Rightarrow> Inl (FileNotFoundError filepath)
      | Some text \<Rightarrow> Inr text)"

text \<open>\<open>os.path.exists\<close>.\<close>

definition path_exists :: "world \<Rightarrow> string \<Rightarrow> bool" where
  "path_exists w path = (files w path \<noteq> None)"

text \<open>
  \<open>file.readlines()\<close>: the text cut after every newline character; each line
  keeps its newline, and a last line without one is a line too.
\<close>

fun readlines :: "string \<Rightarrow> string list" where
  "readlines [] = []"
| "readlines (c # cs) =
     (if c = CHR ''\<newline>'' then [c] # readlines cs
      else (case readlines cs of
              [] \<Rightarrow> [[c]]
            | l # ls \<Rightarrow> (c # l) # ls))"

section \<open>The line pattern\<close>

text \<open>
  \<open>subset_pattern = re.compile(r'VirtualDub\.subset\.AddRange\((\d+),(\d+)\);')\<close>
  and \<open>subset_pattern.match(line)\<close>, which tries the pattern at the first
  character of the line only and does not ask that the line ends where the
  pattern does.

  The pattern is a literal, a greedy run of one or more digits, a comma, a
  second greedy run of digits, and the literal \<open>);\<close>. Each run is followed by
  a character that is not a digit, so giving back digits of a run can never make
  the rest match: the match, when there is one, takes the longest run. The two
  groups are returned as the strings matched.
\<close>

definition is_digit :: "char \<Rightarrow> bool" where
  "is_digit c = (c \<in> set ''0123456789'')"

fun match_literal :: "string \<Rightarrow> string \<Rightarrow> string option" where
  "match_literal [] s = Some s"
| "match_literal (p # ps) [] = None"
| "match_literal (p # ps) (c # cs) = (if p = c then match_literal ps cs else None)"

definition match_digits :: "string \<Rightarrow> (string \<times> string) option" where
  "match_digits s =
     (if takeWhile is_digit s = [] then None
      else Some (takeWhile is_digit s, dropWhile is_digit s))"

definition subset_pattern_match :: "string \<Rightarrow> (string \<times> string) option" where
  "subset_pattern_match line =
     (case match_literal ''VirtualDub.subset.AddRange('' line of
        None \<Rightarrow> None
      | Some r1 \<Rightarrow>
     (case match_digits r1 of
        None \<Rightarrow> None
      | Some (group1, r2) \<Rightarrow>
     (case match_literal '','' r2 of
        None \<Rightarrow> None
      | Some r3 \<Rightarrow>
     (case match_digits r3 of
        None \<Rightarrow> None
      | Some (group2, r4) \<Rightarrow>
     (case match_literal '');'' r4 of
        None \<Rightarrow> None
      | Some r5 \<Rightarrow> Some (group1, group2))))))"

text \<open>
  \<open>int(s)\<close> on a string of decimal digits, which is all the pattern's groups can
  be. Python's integers are unbounded. The interpreter's optional cap on the
  number of digits of a conversion is a setting of the interpreter, not of the
  script, and is not modelled.
\<close>

definition digit_value :: "char \<Rightarrow> int" where
  "digit_value c = int (length (takeWhile (\<lambda>d. d \<noteq> c) ''0123456789''))"

definition py_int :: "string \<Rightarrow> int" where
  "py_int s = foldl (\<lambda>acc c. 10 * acc + digit_value c) 0 s"

section \<open>parse_vdscript\<close>

text \<open>
  A cut segment: the dictionary with the keys \<open>"start"\<close> and \<open>"end"\<close> of v1.1.0
  (\<open>"StartPosition"\<close> and \<open>"EndPosition"\<close> in v1.0.0), named here after the
  variables that fill them.
\<close>

record segment =
  start_frame :: int
  end_frame :: int

text \<open>
  The loop over the lines of v1.1.0; \<open>cut_segments\<close> is the list the loop
  appends to.
\<close>

fun collect_segments :: "segment list \<Rightarrow> string list \<Rightarrow> segment list" where
  "collect_segments cut_segments [] = cut_segments"
| "collect_segments cut_segments (line # lines) =
     (case subset_pattern_match line of
        None \<Rightarrow> collect_segments cut_segments lines
      | Some (group1, group2) \<Rightarrow>
          collect_segments
            (cut_segments @
              [\<lparr>start_frame = py_int group1,
                end_frame = py_int group1 + py_int group2 - 1\<rparr>])
            lines)"

definition parse_vdscript :: "world \<Rightarrow> string \<Rightarrow> error + segment list" where
  "parse_vdscript w filepath =
     (case open_read w filepath of
        Inl e \<Rightarrow> Inl e
      | Inr text \<Rightarrow> Inr (collect_segments [] (readlines text)))"

text \<open>The same loop in v1.0.0, where the end is \<open>start_frame + frame_count\<close>.\<close>

fun collect_segments_v1_0_0 :: "segment list \<Rightarrow> string list \<Rightarrow> segment list" where
  "collect_segments_v1_0_0 cut_segments [] = cut_segments"
| "collect_segments_v1_0_0 cut_segments (line # lines) =
     (case subset_pattern_match line of
        None \<Rightarrow> collect_segments_v1_0_0 cut_segments lines
      | Some (group1, group2) \<Rightarrow>
          collect_segments_v1_0_0
            (cut_segments @
              [\<lparr>start_frame = py_int group1,
                end_frame = py_int group1 + py_int group2\<rparr>])
            lines)"

definition parse_vdscript_v1_0_0 :: "world \<Rightarrow> string \<Rightarrow> error + segment list" where
  "parse_vdscript_v1_0_0 w filepath =
     (case open_read w filepath of
        Inl e \<Rightarrow> Inl e
      | Inr text \<Rightarrow> Inr (collect_segments_v1_0_0 [] (readlines text)))"

section \<open>write_cpf_file\<close>

text \<open>
  \<open>str(n)\<close> of an integer, as an f-string formats it: decimal digits, no padding,
  a minus sign for a negative number.
\<close>

fun str_nat :: "nat \<Rightarrow> string" where
  "str_nat n =
     (if n < 10 then [''0123456789'' ! n]
      else str_nat (n div 10) @ [''0123456789'' ! (n mod 10)])"

declare str_nat.simps [simp del]

definition py_str :: "int \<Rightarrow> string" where
  "py_str i = (if i < 0 then CHR ''-'' # str_nat (nat (- i)) else str_nat (nat i))"

text \<open>
  The four \<open>file.write\<close> calls of one turn of the loop over
  \<open>enumerate(cut_segments)\<close>, \<open>i\<close> counting from 0.
\<close>

definition cut_element_writes :: "nat \<Rightarrow> segment \<Rightarrow> string list" where
  \<open>cut_element_writes i segment =
     [''  <!-- Segment '' @ py_str (int i + 1) @ '' -->\<newline>'',
      ''  <CutElements refVideoFile="0" StartPosition="'' @ py_str (start_frame segment) @
        ''" EndPosition="'' @ py_str (end_frame segment) @ ''">\<newline>'',
      ''    <cutAudioFiles refAudioFile="1" />\<newline>'',
      ''  </CutElements>\<newline>'']\<close>

fun write_segments :: "nat \<Rightarrow> segment list \<Rightarrow> string list" where
  "write_segments i [] = []"
| "write_segments i (segment # rest) =
     cut_element_writes i segment @ write_segments (Suc i) rest"

text \<open>
  Every \<open>file.write\<close> of the function, in the order the calls are made: the
  four before the loop, the loop's, and the four after it.
\<close>

definition header_writes :: "string \<Rightarrow> string \<Rightarrow> string list" where
  \<open>header_writes video_filepath audio_filepath =
     [''<?xml version="1.0" standalone="yes"?>\<newline>'',
      ''<StateData xmlns="http://cuttermaran.kickme.to/StateData.xsd">\<newline>'',
      ''  <usedVideoFiles FileID="0" FileName="'' @ video_filepath @ ''" />\<newline>'',
      ''  <usedAudioFiles FileID="1" FileName="'' @ audio_filepath @ ''" StartDelay="0" />\<newline>'']\<close>

definition footer_writes :: "string list" where
  \<open>footer_writes =
     [''  <CurrentFiles refVideoFiles="0">\<newline>'',
      ''    <currentAudioFiles refAudioFiles="1" />\<newline>'',
      ''  </CurrentFiles>\<newline>'',
      ''</StateData>\<newline>'']\<close>

definition cpf_writes :: "string \<Rightarrow> string \<Rightarrow> segment list \<Rightarrow> string list" where
  "cpf_writes video_filepath audio_filepath cut_segments =
     header_writes video_filepath audio_filepath @ write_segments 0 cut_segments @ footer_writes"

text \<open>
  The function returns early, after printing, when the path exists. Otherwise
  \<open>open(output_filepath, 'w')\<close> creates the file, the writes fill it, and the
  function prints where it saved the project.
\<close>

definition write_cpf_file :: "world \<Rightarrow> string \<Rightarrow> string \<Rightarrow> string \<Rightarrow> segment list \<Rightarrow> world" where
  "write_cpf_file w output_filepath video_filepath audio_filepath cut_segments =
     (if path_exists w output_filepath then
        w\<lparr>stdout := stdout w @
          [''Error: The file '' @ output_filepath @
           '' already exists. Please choose a different filename or remove the existing file.'']\<rparr>
      else
        w\<lparr>files := (files w)(output_filepath \<mapsto>
             concat (cpf_writes video_filepath audio_filepath cut_segments)),
          stdout := stdout w @ [''Cuttermaran project file saved as '' @ output_filepath]\<rparr>)"

definition convert_vdscript_to_cpf ::
  "world \<Rightarrow> string \<Rightarrow> string \<Rightarrow> string \<Rightarrow> string \<Rightarrow> error + world" where
  "convert_vdscript_to_cpf w vdscript_filepath cpf_filepath video_filepath audio_filepath =
     (case parse_vdscript w vdscript_filepath of
        Inl e \<Rightarrow> Inl e
      | Inr cut_segments \<Rightarrow>
          Inr (write_cpf_file w cpf_filepath video_filepath audio_filepath cut_segments))"

section \<open>The vocabulary of the properties\<close>

text \<open>
  A run of one or more decimal digits, and the statement
  \<open>VirtualDub.subset.AddRange(<start>,<count>);\<close> written with two such runs.
\<close>

definition digits :: "string \<Rightarrow> bool" where
  "digits s = (s \<noteq> [] \<and> list_all is_digit s)"

definition statement :: "string \<Rightarrow> string \<Rightarrow> string" where
  "statement s c = ''VirtualDub.subset.AddRange('' @ s @ '','' @ c @ '');''"

section \<open>Facts about the matcher, the lines and the writes\<close>

lemma match_literal_append: "match_literal p (p @ r) = Some r"
  by (induction p) auto

lemma match_literal_Some: "match_literal p s = Some r \<Longrightarrow> s = p @ r"
  by (induction p s rule: match_literal.induct) (auto split: if_splits)

lemma match_literal_iff: "match_literal p s = Some r \<longleftrightarrow> s = p @ r"
  using match_literal_append match_literal_Some by blast

lemma match_digits_run:
  assumes "digits ds" and "r = [] \<or> \<not> is_digit (hd r)"
  shows "match_digits (ds @ r) = Some (ds, r)"
proof -
  from assms(1) have all: "\<And>x. x \<in> set ds \<Longrightarrow> is_digit x" and ne: "ds \<noteq> []"
    by (auto simp: digits_def list_all_iff)
  from assms(2) have "takeWhile is_digit r = []" "dropWhile is_digit r = r"
    by (cases r; auto)+
  with all ne show ?thesis
    by (simp add: match_digits_def takeWhile_append2 dropWhile_append2)
qed

lemma match_digits_Some:
  assumes "match_digits s = Some (ds, r)"
  shows "digits ds \<and> s = ds @ r \<and> (r = [] \<or> \<not> is_digit (hd r))"
proof -
  from assms have ds: "ds = takeWhile is_digit s" and r: "r = dropWhile is_digit s" and ne: "ds \<noteq> []"
    by (auto simp: match_digits_def split: if_splits)
  have "list_all is_digit ds" unfolding ds list_all_iff by (auto dest: set_takeWhileD)
  moreover have "r = [] \<or> \<not> is_digit (hd r)" unfolding r using hd_dropWhile [of is_digit s] by blast
  ultimately show ?thesis using ne ds r by (simp add: digits_def)
qed

lemma subset_pattern_match_statement:
  assumes "digits s" and "digits c"
  shows "subset_pattern_match (statement s c @ rest) = Some (s, c)"
proof -
  have 1: "match_literal ''VirtualDub.subset.AddRange('' (statement s c @ rest) = Some (s @ '','' @ c @ '');'' @ rest)"
    using match_literal_append [of "''VirtualDub.subset.AddRange(''" "s @ '','' @ c @ '');'' @ rest"]
    by (simp add: statement_def)
  have 2: "match_digits (s @ '','' @ c @ '');'' @ rest) = Some (s, '','' @ c @ '');'' @ rest)"
    by (rule match_digits_run [OF assms(1)]) (simp add: is_digit_def)
  have 3: "match_digits (c @ '');'' @ rest) = Some (c, '');'' @ rest)"
    by (rule match_digits_run [OF assms(2)]) (simp add: is_digit_def)
  show ?thesis
    unfolding subset_pattern_match_def 1 using 2 3 by simp
qed

lemma subset_pattern_match_Some:
  assumes "subset_pattern_match line = Some (s, c)"
  shows "digits s \<and> digits c \<and> (\<exists>rest. line = statement s c @ rest)"
proof -
  from assms obtain r1 r2 r3 r4 r5 where
    1: "match_literal ''VirtualDub.subset.AddRange('' line = Some r1" and
    2: "match_digits r1 = Some (s, r2)" and
    3: "match_literal '','' r2 = Some r3" and
    4: "match_digits r3 = Some (c, r4)" and
    5: "match_literal '');'' r4 = Some r5"
    by (auto simp: subset_pattern_match_def split: option.splits prod.splits)
  from 1 have "line = ''VirtualDub.subset.AddRange('' @ r1" by (rule match_literal_Some)
  moreover from 2 have "digits s" "r1 = s @ r2" using match_digits_Some by blast+
  moreover from 3 have "r2 = '','' @ r3" by (rule match_literal_Some)
  moreover from 4 have "digits c" "r3 = c @ r4" using match_digits_Some by blast+
  moreover from 5 have "r4 = '');'' @ r5" by (rule match_literal_Some)
  ultimately show ?thesis by (auto simp: statement_def)
qed

lemma subset_pattern_match_iff:
  "subset_pattern_match line = Some (s, c) \<longleftrightarrow>
     digits s \<and> digits c \<and> (\<exists>rest. line = statement s c @ rest)"
  using subset_pattern_match_Some subset_pattern_match_statement by blast

lemma subset_pattern_match_extend:
  "subset_pattern_match line = Some g \<Longrightarrow> subset_pattern_match (line @ trailing) = Some g"
  by (cases g) (auto simp: subset_pattern_match_iff)

lemma collect_segments_eq:
  "collect_segments acc ls =
     acc @ map (\<lambda>(s, c). \<lparr>start_frame = py_int s, end_frame = py_int s + py_int c - 1\<rparr>)
             (List.map_filter subset_pattern_match ls)"
  by (induction ls arbitrary: acc) (auto simp: List.map_filter_simps split: option.splits)

lemma collect_segments_v1_0_0_eq:
  "collect_segments_v1_0_0 acc ls =
     acc @ map (\<lambda>(s, c). \<lparr>start_frame = py_int s, end_frame = py_int s + py_int c\<rparr>)
             (List.map_filter subset_pattern_match ls)"
  by (induction ls arbitrary: acc) (auto simp: List.map_filter_simps split: option.splits)

lemma readlines_append:
  "pre = [] \<or> last pre = CHR ''\<newline>'' \<Longrightarrow> readlines (pre @ post) = readlines pre @ readlines post"
proof (induction pre)
  case Nil
  then show ?case by simp
next
  case (Cons a pre)
  show ?case
  proof (cases "pre = []")
    case True
    with Cons.prems show ?thesis by simp
  next
    case False
    with Cons.prems have "last pre = CHR ''\<newline>''" by simp
    with Cons.IH have IH: "readlines (pre @ post) = readlines pre @ readlines post" by simp
    from False have "readlines pre \<noteq> []" by (cases pre) (auto split: list.splits)
    then show ?thesis using IH by (auto split: list.splits)
  qed
qed

lemma readlines_single:
  "CHR ''\<newline>'' \<notin> set l \<Longrightarrow> readlines (l @ [CHR ''\<newline>'']) = [l @ [CHR ''\<newline>'']]"
  by (induction l) auto

lemma readlines_Nil_iff: "readlines l = [] \<longleftrightarrow> l = []"
  by (cases l) (auto split: list.splits)

lemma readlines_last:
  "CHR ''\<newline>'' \<notin> set l \<Longrightarrow> l \<noteq> [] \<Longrightarrow> readlines l = [l]"
proof (induction l)
  case Nil
  then show ?case by simp
next
  case (Cons a l)
  show ?case
  proof (cases "l = []")
    case True
    with Cons.prems show ?thesis by simp
  next
    case False
    with Cons have "readlines l = [l]" by simp
    with Cons.prems show ?thesis by auto
  qed
qed

lemma py_int_nonneg_aux: "0 \<le> a \<Longrightarrow> 0 \<le> foldl (\<lambda>acc c. 10 * acc + digit_value c) a s"
  by (induction s arbitrary: a) (auto simp: digit_value_def)

lemma py_int_nonneg: "0 \<le> py_int s"
  by (simp add: py_int_def py_int_nonneg_aux)


lemma write_segments_append:
  "write_segments i (xs @ ys) = write_segments i xs @ write_segments (i + length xs) ys"
  by (induction xs arbitrary: i) auto

lemma write_segments_enumerate:
  "write_segments i segs = concat (map (\<lambda>(k, seg). cut_element_writes k seg) (enumerate i segs))"
  by (induction segs arbitrary: i) auto

lemma files_write_cpf_file:
  "files w out = None \<Longrightarrow>
     files (write_cpf_file w out v a segs) = (files w)(out \<mapsto> concat (cpf_writes v a segs))"
  by (simp add: write_cpf_file_def path_exists_def)

lemma parse_vdscript_Some:
  "files w p = Some text \<Longrightarrow> parse_vdscript w p = Inr (collect_segments [] (readlines text))"
  by (simp add: parse_vdscript_def open_read_def)

lemma parse_vdscript_v1_0_0_Some:
  "files w p = Some text \<Longrightarrow>
     parse_vdscript_v1_0_0 w p = Inr (collect_segments_v1_0_0 [] (readlines text))"
  by (simp add: parse_vdscript_v1_0_0_def open_read_def)

lemma not_digit_newline: "\<not> is_digit (CHR ''\<newline>'')"
  by (simp add: is_digit_def)

lemma not_digit_V: "\<not> is_digit (CHR ''V'')"
  by (simp add: is_digit_def)

lemma digits_notin: "digits s \<Longrightarrow> \<not> is_digit x \<Longrightarrow> x \<notin> set s"
  by (auto simp: digits_def list_all_iff)

lemma statement_no_newline:
  assumes "digits s" and "digits c"
  shows "CHR ''\<newline>'' \<notin> set (statement s c)"
  using digits_notin [OF assms(1) not_digit_newline] digits_notin [OF assms(2) not_digit_newline]
  by (simp add: statement_def)

lemma tl_statement_no_V:
  assumes "digits s" and "digits c"
  shows "CHR ''V'' \<notin> set (tl (statement s c))"
  using digits_notin [OF assms(1) not_digit_V] digits_notin [OF assms(2) not_digit_V]
  by (simp add: statement_def)

lemma hd_statement: "hd (statement s c @ r) = CHR ''V''"
  by (simp add: statement_def)

lemma subset_pattern_match_anchor:
  assumes "p \<noteq> []" and "digits s" and "digits c"
  shows "subset_pattern_match (p @ statement s c @ trailing) = subset_pattern_match p"
proof (cases "subset_pattern_match (p @ statement s c @ trailing)")
  case None
  then show ?thesis
    using subset_pattern_match_extend [of p _ "statement s c @ trailing"]
    by (cases "subset_pattern_match p") auto
next
  case (Some g)
  obtain g1 g2 where g: "g = (g1, g2)" by (cases g)
  from Some g have dg: "digits g1" "digits g2"
    and "\<exists>rest. p @ statement s c @ trailing = statement g1 g2 @ rest"
    using subset_pattern_match_Some by blast+
  then obtain rest where eq: "p @ (statement s c @ trailing) = statement g1 g2 @ rest"
    by auto
  then obtain us where us:
    "(p = statement g1 g2 @ us \<and> us @ (statement s c @ trailing) = rest) \<or>
     (p @ us = statement g1 g2 \<and> statement s c @ trailing = us @ rest)"
    unfolding append_eq_append_conv2 by blast
  have "\<exists>us'. p = statement g1 g2 @ us'"
  proof (cases "us = []")
    case True
    with us show ?thesis by auto
  next
    case False
    show ?thesis
    proof (rule ccontr)
      assume not: "\<not> ?thesis"
      with us have 1: "p @ us = statement g1 g2" and 2: "statement s c @ trailing = us @ rest"
        by auto
      from 2 False have "hd us = CHR ''V''"
        using hd_statement [of s c trailing] by (cases us) auto
      with False have "CHR ''V'' \<in> set us" by (cases us) auto
      moreover from 1 assms(1) have "tl (statement g1 g2) = tl p @ us"
        by (cases p) (auto simp flip: 1)
      ultimately show False using tl_statement_no_V [OF dg] by simp
    qed
  qed
  then obtain us' where "p = statement g1 g2 @ us'" ..
  then have "subset_pattern_match p = Some (g1, g2)"
    using subset_pattern_match_statement [OF dg] by simp
  with Some g show ?thesis by simp
qed

lemma subset_pattern_match_hd:
  "line = [] \<or> hd line \<noteq> CHR ''V'' \<Longrightarrow> subset_pattern_match line = None"
  by (cases line) (auto simp: subset_pattern_match_def)

lemma match_example_100_50:
  "subset_pattern_match ''VirtualDub.subset.AddRange(100,50);'' = Some (''100'', ''50'')"
  by (simp add: subset_pattern_match_def match_digits_def is_digit_def)

lemma match_example_300_10:
  "subset_pattern_match ''VirtualDub.subset.AddRange(300,10);'' = Some (''300'', ''10'')"
  by (simp add: subset_pattern_match_def match_digits_def is_digit_def)

lemma match_takeWhile:
  assumes "takeWhile P line = stmt" and "subset_pattern_match stmt = Some g"
  shows "subset_pattern_match line = Some g"
proof -
  have "line = stmt @ dropWhile P line"
    using assms(1) takeWhile_dropWhile_id [of P line] by simp
  then show ?thesis
    using subset_pattern_match_extend [OF assms(2), of "dropWhile P line"] by simp
qed

lemma set_map_filter_conv:
  "set (List.map_filter f xs) = {y. \<exists>x\<in>set xs. f x = Some y}"
  by (induction xs) (auto split: option.splits)

lemma py_int_gt: "- 1 < py_int s"
  using py_int_nonneg [of s] by arith

lemma write_segments_nth:
  assumes "i < length segs"
  shows "write_segments k segs =
    write_segments k (take i segs) @ cut_element_writes (k + i) (segs ! i) @
    write_segments (Suc (k + i)) (drop (Suc i) segs)"
proof -
  have "segs = take i segs @ (segs ! i) # drop (Suc i) segs"
    using assms by (rule id_take_nth_drop)
  then have "write_segments k segs = write_segments k (take i segs @ (segs ! i) # drop (Suc i) segs)"
    by simp
  also have "\<dots> = write_segments k (take i segs) @ cut_element_writes (k + i) (segs ! i) @
    write_segments (Suc (k + i)) (drop (Suc i) segs)"
    using assms by (simp add: write_segments_append min_def)
  finally show ?thesis .
qed

lemma py_str_412: "py_str 412 = ''412''"
  by (simp add: py_str_def str_nat.simps)

lemma py_str_619: "py_str 619 = ''619''"
  by (simp add: py_str_def str_nat.simps)

lemma readlines_statements:
  assumes "list_all (\<lambda>(s, c). digits s \<and> digits c) ps"
  shows "readlines (concat (map (\<lambda>(s, c). statement s c @ [CHR ''\<newline>'']) ps)) =
           map (\<lambda>(s, c). statement s c @ [CHR ''\<newline>'']) ps"
  using assms
proof (induction ps)
  case Nil
  then show ?case by simp
next
  case (Cons p ps)
  obtain s c where p: "p = (s, c)" by (cases p)
  from Cons.prems p have d: "digits s" "digits c" by auto
  have "readlines ((statement s c @ [CHR ''\<newline>'']) @
          concat (map (\<lambda>(s, c). statement s c @ [CHR ''\<newline>'']) ps)) =
        readlines (statement s c @ [CHR ''\<newline>'']) @
          readlines (concat (map (\<lambda>(s, c). statement s c @ [CHR ''\<newline>'']) ps))"
    by (rule readlines_append) simp
  then show ?case
    using Cons p readlines_single [OF statement_no_newline [OF d]] by simp
qed

lemma map_filter_statements:
  assumes "list_all (\<lambda>(s, c). digits s \<and> digits c) ps"
  shows "List.map_filter subset_pattern_match
           (map (\<lambda>(s, c). statement s c @ [CHR ''\<newline>'']) ps) = ps"
  using assms
  by (induction ps) (auto simp: subset_pattern_match_statement)

lemma collect_segments_no_match:
  "\<forall>line\<in>set lines. subset_pattern_match line = None \<Longrightarrow>
     collect_segments acc lines = acc"
  by (induction lines) auto

lemma concat_write_segments:
  "concat (write_segments i (map g ps)) =
     concat (map (\<lambda>(k, p). concat (cut_element_writes k (g p))) (enumerate i ps))"
  by (induction ps arbitrary: i) auto

section \<open>Extraction on the two-line example\<close>

text \<open>
  C1: when the lines of the source text that match are, their line ends aside,
  exactly \<open>VirtualDub.subset.AddRange(100,50);\<close> and then
  \<open>VirtualDub.subset.AddRange(300,10);\<close>, \<open>parse_vdscript\<close> of v1.1.0 returns
  exactly two intervals, in that order: start 100 with end 149, and start 300
  with end 309.
\<close>

theorem parse_vdscript_two_ranges:
  assumes "files w filepath = Some text"
    and "map (takeWhile (\<lambda>c. c \<noteq> CHR ''\<newline>''))
           (filter (\<lambda>line. subset_pattern_match line \<noteq> None) (readlines text))
         = [''VirtualDub.subset.AddRange(100,50);'', ''VirtualDub.subset.AddRange(300,10);'']"
  shows "parse_vdscript w filepath =
           Inr [\<lparr>start_frame = 100, end_frame = 149\<rparr>, \<lparr>start_frame = 300, end_frame = 309\<rparr>]"
proof -
  from assms(2) obtain l1 l2 where
    f: "filter (\<lambda>line. subset_pattern_match line \<noteq> None) (readlines text) = [l1, l2]" and
    t1: "takeWhile (\<lambda>c. c \<noteq> CHR ''\<newline>'') l1 = ''VirtualDub.subset.AddRange(100,50);''" and
    t2: "takeWhile (\<lambda>c. c \<noteq> CHR ''\<newline>'') l2 = ''VirtualDub.subset.AddRange(300,10);''"
    by (auto simp: map_eq_Cons_conv)
  have m1: "subset_pattern_match l1 = Some (''100'', ''50'')"
    by (rule match_takeWhile [OF t1 match_example_100_50])
  have m2: "subset_pattern_match l2 = Some (''300'', ''10'')"
    by (rule match_takeWhile [OF t2 match_example_300_10])
  have "List.map_filter subset_pattern_match (readlines text) = [(''100'', ''50''), (''300'', ''10'')]"
    unfolding List.map_filter_def f by (simp add: m1 m2)
  then have "collect_segments [] (readlines text) =
      [\<lparr>start_frame = 100, end_frame = 149\<rparr>, \<lparr>start_frame = 300, end_frame = 309\<rparr>]"
    by (simp add: collect_segments_eq py_int_def digit_value_def)
  then show ?thesis
    using parse_vdscript_Some [OF assms(1)] by simp
qed

theorem parse_vdscript_two_ranges_witness:
  "parse_vdscript
     \<lparr>files = [''cuts.vdscript'' \<mapsto>
        ''VirtualDub.video.SetMode(0);\<newline>VirtualDub.subset.AddRange(100,50);\<newline>VirtualDub.subset.AddRange(300,10);\<newline>VirtualDub.video.SetRange();''],
      stdout = []\<rparr> ''cuts.vdscript''
   = Inr [\<lparr>start_frame = 100, end_frame = 149\<rparr>, \<lparr>start_frame = 300, end_frame = 309\<rparr>]"
proof (rule parse_vdscript_two_ranges)
  show "files \<lparr>files = [''cuts.vdscript'' \<mapsto>
        ''VirtualDub.video.SetMode(0);\<newline>VirtualDub.subset.AddRange(100,50);\<newline>VirtualDub.subset.AddRange(300,10);\<newline>VirtualDub.video.SetRange();''],
      stdout = []\<rparr> ''cuts.vdscript'' = Some ''VirtualDub.video.SetMode(0);\<newline>VirtualDub.subset.AddRange(100,50);\<newline>VirtualDub.subset.AddRange(300,10);\<newline>VirtualDub.video.SetRange();''"
    by simp
  show "map (takeWhile (\<lambda>c. c \<noteq> CHR ''\<newline>''))
           (filter (\<lambda>line. subset_pattern_match line \<noteq> None) (readlines ''VirtualDub.video.SetMode(0);\<newline>VirtualDub.subset.AddRange(100,50);\<newline>VirtualDub.subset.AddRange(300,10);\<newline>VirtualDub.video.SetRange();''))
         = [''VirtualDub.subset.AddRange(100,50);'', ''VirtualDub.subset.AddRange(300,10);'']"
    by (simp add: subset_pattern_match_def match_digits_def is_digit_def)
qed

section \<open>The end of a range is never far below its start\<close>

text \<open>
  A statement with the count 0 matches like any other, and v1.1.0 gives it the
  end \<open>start - 1\<close>: the text \<open>VirtualDub.subset.AddRange(5,0);\<close> produces the
  interval with start 5 and end 4.
\<close>

theorem parse_vdscript_zero_count:
  "parse_vdscript
     \<lparr>files = [''cuts.vdscript'' \<mapsto> ''VirtualDub.subset.AddRange(5,0);\<newline>''], stdout = []\<rparr>
     ''cuts.vdscript''
   = Inr [\<lparr>start_frame = 5, end_frame = 4\<rparr>]
   \<and> end_frame \<lparr>start_frame = 5, end_frame = 4\<rparr> < start_frame \<lparr>start_frame = 5, end_frame = 4\<rparr>"
  by (simp add: parse_vdscript_def open_read_def subset_pattern_match_def match_digits_def
      is_digit_def py_int_def digit_value_def)

text \<open>
  C2, as the code has it: for every source text, every interval of v1.0.0 has
  \<open>end \<ge> start\<close>. Every interval of v1.1.0 comes from one matched line (\<open>gs\<close>,
  the groups of the lines that match, in order) and has
  \<open>end = start + count - 1\<close> with \<open>count \<ge> 0\<close>: so \<open>end \<ge> start\<close> holds for exactly
  the intervals whose matched count is not 0, whatever the other lines of the
  text are, an interval whose matched count is 0 has \<open>end = start - 1\<close>, and
  \<open>end \<ge> start - 1\<close> holds for all of them.
\<close>

theorem end_frame_bounds:
  assumes "files w filepath = Some text"
  shows "\<exists>gs segs0 segs1.
           gs = List.map_filter subset_pattern_match (readlines text) \<and>
           parse_vdscript_v1_0_0 w filepath = Inr segs0 \<and>
           parse_vdscript w filepath = Inr segs1 \<and>
           length segs0 = length gs \<and>
           length segs1 = length gs \<and>
           (\<forall>seg\<in>set segs0. start_frame seg \<le> end_frame seg) \<and>
           (\<forall>seg\<in>set segs1. start_frame seg - 1 \<le> end_frame seg) \<and>
           (\<forall>i<length gs.
              start_frame (segs1 ! i) = py_int (fst (gs ! i)) \<and>
              end_frame (segs1 ! i) = start_frame (segs1 ! i) + py_int (snd (gs ! i)) - 1 \<and>
              0 \<le> py_int (snd (gs ! i)) \<and>
              (start_frame (segs1 ! i) \<le> end_frame (segs1 ! i) \<longleftrightarrow> py_int (snd (gs ! i)) \<noteq> 0) \<and>
              (py_int (snd (gs ! i)) = 0 \<longrightarrow> end_frame (segs1 ! i) = start_frame (segs1 ! i) - 1))"
proof -
  let ?gs = "List.map_filter subset_pattern_match (readlines text)"
  let ?segs0 = "collect_segments_v1_0_0 [] (readlines text)"
  let ?segs1 = "collect_segments [] (readlines text)"
  have a: "\<forall>seg\<in>set ?segs0. start_frame seg \<le> end_frame seg"
    by (auto simp: collect_segments_v1_0_0_eq py_int_nonneg)
  have b: "\<forall>seg\<in>set ?segs1. start_frame seg - 1 \<le> end_frame seg"
    by (auto simp: collect_segments_eq py_int_gt)
  have l: "length ?segs0 = length ?gs" "length ?segs1 = length ?gs"
    by (simp_all add: collect_segments_v1_0_0_eq collect_segments_eq)
  have c: "start_frame (?segs1 ! i) = py_int (fst (?gs ! i)) \<and>
      end_frame (?segs1 ! i) = start_frame (?segs1 ! i) + py_int (snd (?gs ! i)) - 1 \<and>
      0 \<le> py_int (snd (?gs ! i)) \<and>
      (start_frame (?segs1 ! i) \<le> end_frame (?segs1 ! i) \<longleftrightarrow> py_int (snd (?gs ! i)) \<noteq> 0) \<and>
      (py_int (snd (?gs ! i)) = 0 \<longrightarrow> end_frame (?segs1 ! i) = start_frame (?segs1 ! i) - 1)"
    if "i < length ?gs" for i
  proof -
    have seg: "?segs1 ! i = \<lparr>start_frame = py_int (fst (?gs ! i)),
        end_frame = py_int (fst (?gs ! i)) + py_int (snd (?gs ! i)) - 1\<rparr>"
      using that by (simp add: collect_segments_eq split_def)
    show ?thesis
      unfolding seg using py_int_nonneg [of "snd (?gs ! i)"] by auto
  qed
  show ?thesis
    using parse_vdscript_v1_0_0_Some [OF assms] parse_vdscript_Some [OF assms] a b l c
    by blast
qed

theorem end_frame_bounds_witness:
  "parse_vdscript_v1_0_0
       \<lparr>files = [''cuts.vdscript'' \<mapsto> ''VirtualDub.subset.AddRange(7,3);\<newline>VirtualDub.subset.AddRange(5,0);\<newline>''],
        stdout = []\<rparr> ''cuts.vdscript''
     = Inr [\<lparr>start_frame = 7, end_frame = 10\<rparr>, \<lparr>start_frame = 5, end_frame = 5\<rparr>]
   \<and> parse_vdscript
       \<lparr>files = [''cuts.vdscript'' \<mapsto> ''VirtualDub.subset.AddRange(7,3);\<newline>VirtualDub.subset.AddRange(5,0);\<newline>''],
        stdout = []\<rparr> ''cuts.vdscript''
     = Inr [\<lparr>start_frame = 7, end_frame = 9\<rparr>, \<lparr>start_frame = 5, end_frame = 4\<rparr>]
   \<and> List.map_filter subset_pattern_match
        (readlines ''VirtualDub.subset.AddRange(7,3);\<newline>VirtualDub.subset.AddRange(5,0);\<newline>'')
     = [(''7'', ''3''), (''5'', ''0'')]
   \<and> py_int ''3'' \<noteq> 0 \<and> py_int ''0'' = 0"
proof -
  let ?text = "''VirtualDub.subset.AddRange(7,3);\<newline>VirtualDub.subset.AddRange(5,0);\<newline>''"
  let ?w = "\<lparr>files = [''cuts.vdscript'' \<mapsto> ?text], stdout = []\<rparr>"
  have h: "files ?w ''cuts.vdscript'' = Some ?text" by simp
  have gs: "List.map_filter subset_pattern_match (readlines ?text) = [(''7'', ''3''), (''5'', ''0'')]"
    by (simp add: subset_pattern_match_def match_digits_def is_digit_def)
  have v: "py_int ''7'' = 7" "py_int ''3'' = 3" "py_int ''5'' = 5" "py_int ''0'' = 0"
    by (simp_all add: py_int_def digit_value_def)
  have v0: "parse_vdscript_v1_0_0 ?w ''cuts.vdscript'' =
      Inr [\<lparr>start_frame = 7, end_frame = 10\<rparr>, \<lparr>start_frame = 5, end_frame = 5\<rparr>]"
    unfolding parse_vdscript_v1_0_0_Some [OF h] collect_segments_v1_0_0_eq gs
    by (simp add: v)
  from end_frame_bounds [OF h] obtain segs1 where
    p: "parse_vdscript ?w ''cuts.vdscript'' = Inr segs1" and
    len: "length segs1 = length (List.map_filter subset_pattern_match (readlines ?text))" and
    each: "\<forall>i<length (List.map_filter subset_pattern_match (readlines ?text)).
       start_frame (segs1 ! i) = py_int (fst (List.map_filter subset_pattern_match (readlines ?text) ! i)) \<and>
       end_frame (segs1 ! i) = start_frame (segs1 ! i)
          + py_int (snd (List.map_filter subset_pattern_match (readlines ?text) ! i)) - 1"
    by blast
  from len have len2: "length segs1 = 2" unfolding gs by simp
  from each have e0: "start_frame (segs1 ! 0) = 7 \<and> end_frame (segs1 ! 0) = 9"
    unfolding gs by (simp add: v)
  from each have "1 < length [(''7'', ''3''), (''5'', ''0'')] \<longrightarrow>
      start_frame (segs1 ! 1) = py_int (fst ([(''7'', ''3''), (''5'', ''0'')] ! 1)) \<and>
      end_frame (segs1 ! 1) = start_frame (segs1 ! 1) + py_int (snd ([(''7'', ''3''), (''5'', ''0'')] ! 1)) - 1"
    unfolding gs by blast
  then have e1: "start_frame (segs1 ! 1) = 5 \<and> end_frame (segs1 ! 1) = 4"
    by (simp add: v)
  from len2 obtain x y where xy: "segs1 = [x, y]"
    by (cases segs1; cases "tl segs1"; auto)
  with e0 e1 have "x = \<lparr>start_frame = 7, end_frame = 9\<rparr>" "y = \<lparr>start_frame = 5, end_frame = 4\<rparr>"
    by simp_all
  with xy p have v1: "parse_vdscript ?w ''cuts.vdscript'' =
      Inr [\<lparr>start_frame = 7, end_frame = 9\<rparr>, \<lparr>start_frame = 5, end_frame = 4\<rparr>]"
    by simp
  show ?thesis
    using v0 v1 gs by (simp add: v)
qed

section \<open>The two versions side by side\<close>

text \<open>
  C3: on every path both versions fail alike, and on every source text they take
  their intervals from the same matched lines (\<open>gs\<close>, the groups of the lines
  that match, in order): the two sequences have the same length and the same
  starts, and at each position the end of v1.0.0 (\<open>start + count\<close>) is the end of
  v1.1.0 (\<open>start + count - 1\<close>) plus 1.
\<close>

theorem versions_agree:
  "(\<forall>e. parse_vdscript_v1_0_0 w filepath = Inl e \<longleftrightarrow> parse_vdscript w filepath = Inl e) \<and>
   (\<forall>text. files w filepath = Some text \<longrightarrow>
      (\<exists>gs segs0 segs1.
         gs = List.map_filter subset_pattern_match (readlines text) \<and>
         parse_vdscript_v1_0_0 w filepath = Inr segs0 \<and>
         parse_vdscript w filepath = Inr segs1 \<and>
         segs0 = map (\<lambda>(s, c). \<lparr>start_frame = py_int s, end_frame = py_int s + py_int c\<rparr>) gs \<and>
         segs1 = map (\<lambda>(s, c). \<lparr>start_frame = py_int s, end_frame = py_int s + py_int c - 1\<rparr>) gs \<and>
         length segs0 = length segs1 \<and>
         map start_frame segs0 = map start_frame segs1 \<and>
         map end_frame segs0 = map (\<lambda>seg. end_frame seg + 1) segs1))"
proof (intro conjI allI impI)
  fix e
  show "parse_vdscript_v1_0_0 w filepath = Inl e \<longleftrightarrow> parse_vdscript w filepath = Inl e"
    by (simp add: parse_vdscript_v1_0_0_def parse_vdscript_def split: sum.splits)
next
  fix t assume h: "files w filepath = Some t"
  have "map start_frame (collect_segments_v1_0_0 [] (readlines t)) =
        map start_frame (collect_segments [] (readlines t))"
    by (simp add: collect_segments_v1_0_0_eq collect_segments_eq split_def comp_def)
  moreover have "map end_frame (collect_segments_v1_0_0 [] (readlines t)) =
        map (\<lambda>seg. end_frame seg + 1) (collect_segments [] (readlines t))"
    by (simp add: collect_segments_v1_0_0_eq collect_segments_eq split_def comp_def)
  ultimately show "\<exists>gs segs0 segs1.
         gs = List.map_filter subset_pattern_match (readlines t) \<and>
         parse_vdscript_v1_0_0 w filepath = Inr segs0 \<and>
         parse_vdscript w filepath = Inr segs1 \<and>
         segs0 = map (\<lambda>(s, c). \<lparr>start_frame = py_int s, end_frame = py_int s + py_int c\<rparr>) gs \<and>
         segs1 = map (\<lambda>(s, c). \<lparr>start_frame = py_int s, end_frame = py_int s + py_int c - 1\<rparr>) gs \<and>
         length segs0 = length segs1 \<and>
         map start_frame segs0 = map start_frame segs1 \<and>
         map end_frame segs0 = map (\<lambda>seg. end_frame seg + 1) segs1"
    using parse_vdscript_v1_0_0_Some [OF h] parse_vdscript_Some [OF h]
    by (simp add: collect_segments_v1_0_0_eq collect_segments_eq)
qed

theorem versions_agree_witness:
  "parse_vdscript_v1_0_0
     \<lparr>files = [''cuts.vdscript'' \<mapsto> ''VirtualDub.subset.AddRange(7,3);\<newline>; a comment\<newline>VirtualDub.subset.AddRange(20,0);\<newline>''],
      stdout = []\<rparr> ''cuts.vdscript''
     = Inr [\<lparr>start_frame = 7, end_frame = 10\<rparr>, \<lparr>start_frame = 20, end_frame = 20\<rparr>]
   \<and> parse_vdscript
     \<lparr>files = [''cuts.vdscript'' \<mapsto> ''VirtualDub.subset.AddRange(7,3);\<newline>; a comment\<newline>VirtualDub.subset.AddRange(20,0);\<newline>''],
      stdout = []\<rparr> ''cuts.vdscript''
     = Inr [\<lparr>start_frame = 7, end_frame = 9\<rparr>, \<lparr>start_frame = 20, end_frame = 19\<rparr>]"
proof -
  let ?text = "''VirtualDub.subset.AddRange(7,3);\<newline>; a comment\<newline>VirtualDub.subset.AddRange(20,0);\<newline>''"
  let ?w = "\<lparr>files = [''cuts.vdscript'' \<mapsto> ?text], stdout = []\<rparr>"
  have h: "files ?w ''cuts.vdscript'' = Some ?text" by simp
  have gs: "List.map_filter subset_pattern_match (readlines ?text) = [(''7'', ''3''), (''20'', ''0'')]"
    by (simp add: subset_pattern_match_def match_digits_def is_digit_def)
  have v: "py_int ''7'' = 7" "py_int ''3'' = 3" "py_int ''20'' = 20" "py_int ''0'' = 0"
    by (simp_all add: py_int_def digit_value_def)
  from versions_agree [of ?w "''cuts.vdscript''"] h obtain segs0 segs1 where
    "parse_vdscript_v1_0_0 ?w ''cuts.vdscript'' = Inr segs0"
    "parse_vdscript ?w ''cuts.vdscript'' = Inr segs1"
    "segs0 = map (\<lambda>(s, c). \<lparr>start_frame = py_int s, end_frame = py_int s + py_int c\<rparr>)
       (List.map_filter subset_pattern_match (readlines ?text))"
    "segs1 = map (\<lambda>(s, c). \<lparr>start_frame = py_int s, end_frame = py_int s + py_int c - 1\<rparr>)
       (List.map_filter subset_pattern_match (readlines ?text))"
    by blast
  then show ?thesis
    unfolding gs by (simp add: v)
qed

section \<open>An existing destination is left alone\<close>

text \<open>
  C4: when the destination path exists, \<open>write_cpf_file\<close> only prints that the
  file already exists: every file, the destination among them, is as it was
  before the call, and nothing is created.
\<close>

theorem write_cpf_file_refuses_existing:
  assumes "files w output_filepath = Some old"
  shows "write_cpf_file w output_filepath video_filepath audio_filepath cut_segments =
           w\<lparr>stdout := stdout w @
             [''Error: The file '' @ output_filepath @
              '' already exists. Please choose a different filename or remove the existing file.'']\<rparr>
         \<and> files (write_cpf_file w output_filepath video_filepath audio_filepath cut_segments) = files w
         \<and> files (write_cpf_file w output_filepath video_filepath audio_filepath cut_segments)
             output_filepath = Some old"
  using assms by (simp add: write_cpf_file_def path_exists_def)

theorem write_cpf_file_refuses_existing_witness:
  "write_cpf_file \<lparr>files = [''out.cpf'' \<mapsto> ''an older project''], stdout = []\<rparr>
      ''out.cpf'' ''test.m2v'' ''test.mp2'' [\<lparr>start_frame = 412, end_frame = 619\<rparr>]
    = \<lparr>files = [''out.cpf'' \<mapsto> ''an older project''],
       stdout = [''Error: The file out.cpf already exists. Please choose a different filename or remove the existing file.'']\<rparr>
   \<and> files (write_cpf_file \<lparr>files = [''out.cpf'' \<mapsto> ''an older project''], stdout = []\<rparr>
      ''out.cpf'' ''test.m2v'' ''test.mp2'' [\<lparr>start_frame = 412, end_frame = 619\<rparr>]) ''out.cpf''
    = Some ''an older project''"
  using write_cpf_file_refuses_existing
    [of "\<lparr>files = [''out.cpf'' \<mapsto> ''an older project''], stdout = []\<rparr>" "''out.cpf''"
        "''an older project''" "''test.m2v''" "''test.mp2''" "[\<lparr>start_frame = 412, end_frame = 619\<rparr>]"]
  by simp

section \<open>The pattern is tried at the first character only\<close>

text \<open>
  A line whose leading characters are themselves a statement is matched: in
  \<open>VirtualDub.subset.AddRange(1,2);VirtualDub.subset.AddRange(3,4);\<close> the second
  statement has characters before it, and the line gives the interval of the
  first.
\<close>

theorem leading_statement_is_matched:
  "parse_vdscript
     \<lparr>files = [''cuts.vdscript'' \<mapsto>
        ''VirtualDub.subset.AddRange(1,2);'' @ statement ''3'' ''4'' @ ''\<newline>''], stdout = []\<rparr>
     ''cuts.vdscript''
   = Inr [\<lparr>start_frame = 1, end_frame = 2\<rparr>]
   \<and> ''VirtualDub.subset.AddRange(1,2);'' \<noteq> []
   \<and> digits ''3'' \<and> digits ''4''"
  by (simp add: parse_vdscript_def open_read_def subset_pattern_match_def match_digits_def
      is_digit_def py_int_def digit_value_def statement_def digits_def)

text \<open>
  C5, as the code has it: a line made of one or more leading characters \<open>p\<close>, the
  statement, and anything after it, is matched exactly as \<open>p\<close> alone is, so the
  statement after \<open>p\<close> is never what the pattern finds. When \<open>p\<close> does not begin
  with \<open>V\<close> (white space, for one) the line is not matched, the loop appends
  nothing for it, and a file holding only that line yields no interval.
\<close>

theorem match_is_anchored:
  assumes "p \<noteq> []" and "digits s" and "digits c"
  shows "subset_pattern_match (p @ statement s c @ trailing) = subset_pattern_match p
       \<and> (hd p \<noteq> CHR ''V'' \<longrightarrow>
            subset_pattern_match (p @ statement s c @ trailing) = None \<and>
            collect_segments cut_segments ((p @ statement s c @ trailing) # lines) =
              collect_segments cut_segments lines)
       \<and> (hd p \<noteq> CHR ''V'' \<and> CHR ''\<newline>'' \<notin> set p \<and> CHR ''\<newline>'' \<notin> set trailing \<and>
            files w filepath = Some (p @ statement s c @ trailing @ [CHR ''\<newline>''])
          \<longrightarrow> parse_vdscript w filepath = Inr [])"
proof (intro conjI impI)
  show "subset_pattern_match (p @ statement s c @ trailing) = subset_pattern_match p"
    by (rule subset_pattern_match_anchor [OF assms])
next
  assume "hd p \<noteq> CHR ''V''"
  with assms(1) have "hd (p @ statement s c @ trailing) \<noteq> CHR ''V''" by simp
  then have none: "subset_pattern_match (p @ statement s c @ trailing) = None"
    by (simp add: subset_pattern_match_hd)
  then show "subset_pattern_match (p @ statement s c @ trailing) = None" .
  from none show "collect_segments cut_segments ((p @ statement s c @ trailing) # lines) =
              collect_segments cut_segments lines"
    by simp
next
  assume a: "hd p \<noteq> CHR ''V'' \<and> CHR ''\<newline>'' \<notin> set p \<and> CHR ''\<newline>'' \<notin> set trailing \<and>
            files w filepath = Some (p @ statement s c @ trailing @ [CHR ''\<newline>''])"
  let ?l = "p @ statement s c @ trailing"
  from a assms(1) have "hd (?l @ [CHR ''\<newline>'']) \<noteq> CHR ''V''" by simp
  then have none: "subset_pattern_match (?l @ [CHR ''\<newline>'']) = None"
    by (simp add: subset_pattern_match_hd)
  from a statement_no_newline [OF assms(2,3)] have "CHR ''\<newline>'' \<notin> set ?l" by simp
  then have "readlines (?l @ [CHR ''\<newline>'']) = [?l @ [CHR ''\<newline>'']]"
    by (rule readlines_single)
  moreover from a have "files w filepath = Some (?l @ [CHR ''\<newline>''])" by simp
  ultimately show "parse_vdscript w filepath = Inr []"
    using none parse_vdscript_Some [of w filepath "?l @ [CHR ''\<newline>'']"] by simp
qed

theorem match_is_anchored_witness:
  "subset_pattern_match (''  '' @ statement ''412'' ''208'' @ '' // kept'') = None
   \<and> subset_pattern_match ''  '' = None
   \<and> collect_segments [] [''  '' @ statement ''412'' ''208'' @ '' // kept''] = []
   \<and> parse_vdscript
       \<lparr>files = [''cuts.vdscript'' \<mapsto> ''  '' @ statement ''412'' ''208'' @ '' // kept'' @ ''\<newline>''],
        stdout = []\<rparr> ''cuts.vdscript'' = Inr []"
proof -
  have d: "digits ''412''" "digits ''208''"
    by (simp_all add: digits_def is_digit_def)
  have p: "''  '' \<noteq> []" by simp
  have n: "subset_pattern_match ''  '' = None"
    by (simp add: subset_pattern_match_def)
  show ?thesis
    using match_is_anchored [OF p d, of "'' // kept''" "[]" "[]"
        "\<lparr>files = [''cuts.vdscript'' \<mapsto> ''  '' @ statement ''412'' ''208'' @ '' // kept'' @ ''\<newline>''],
          stdout = []\<rparr>" "''cuts.vdscript''"] n
    by simp
qed

section \<open>The order of the source is the order of the output\<close>

text \<open>
  C6: for every sequence \<open>ps\<close> of valid statements, one per line, whatever their
  numbers and however they are arranged, \<open>parse_vdscript\<close> returns one interval
  per line in the order of the lines, and the file written is the header, then
  for line \<open>i\<close> (counting from 0), in the order of the lines, the comment
  \<open>Segment i+1\<close> and the \<open>CutElements\<close> block with the start and the end of that
  line's interval, then the footer: nothing is sorted, dropped or merged.
\<close>

theorem order_preserved:
  assumes "list_all (\<lambda>(s, c). digits s \<and> digits c) ps"
    and "files w vdscript_filepath =
           Some (concat (map (\<lambda>(s, c). statement s c @ [CHR ''\<newline>'']) ps))"
    and "files w cpf_filepath = None"
  shows \<open>\<exists>cut_segments w'.
           parse_vdscript w vdscript_filepath = Inr cut_segments \<and>
           cut_segments =
             map (\<lambda>(s, c). \<lparr>start_frame = py_int s, end_frame = py_int s + py_int c - 1\<rparr>) ps \<and>
           length cut_segments = length ps \<and>
           convert_vdscript_to_cpf w vdscript_filepath cpf_filepath video_filepath audio_filepath
             = Inr w' \<and>
           w' = write_cpf_file w cpf_filepath video_filepath audio_filepath cut_segments \<and>
           files w' cpf_filepath =
             Some (''<?xml version="1.0" standalone="yes"?>\<newline>''
               @ ''<StateData xmlns="http://cuttermaran.kickme.to/StateData.xsd">\<newline>''
               @ ''  <usedVideoFiles FileID="0" FileName="'' @ video_filepath @ ''" />\<newline>''
               @ ''  <usedAudioFiles FileID="1" FileName="'' @ audio_filepath @ ''" StartDelay="0" />\<newline>''
               @ concat (map (\<lambda>(i, s, c).
                     ''  <!-- Segment '' @ py_str (int i + 1) @ '' -->\<newline>''
                   @ ''  <CutElements refVideoFile="0" StartPosition="'' @ py_str (py_int s)
                   @ ''" EndPosition="'' @ py_str (py_int s + py_int c - 1) @ ''">\<newline>''
                   @ ''    <cutAudioFiles refAudioFile="1" />\<newline>''
                   @ ''  </CutElements>\<newline>'')
                   (enumerate 0 ps))
               @ ''  <CurrentFiles refVideoFiles="0">\<newline>''
               @ ''    <currentAudioFiles refAudioFiles="1" />\<newline>''
               @ ''  </CurrentFiles>\<newline>''
               @ ''</StateData>\<newline>'')\<close>
proof -
  let ?seg = "\<lambda>(s, c). \<lparr>start_frame = py_int s, end_frame = py_int s + py_int c - 1\<rparr>"
  have parse: "parse_vdscript w vdscript_filepath = Inr (map ?seg ps)"
    unfolding parse_vdscript_Some [OF assms(2)] readlines_statements [OF assms(1)]
      collect_segments_eq map_filter_statements [OF assms(1)]
    by simp
  have blocks: \<open>concat (write_segments 0 (map ?seg ps)) =
      concat (map (\<lambda>(i, s, c).
                     ''  <!-- Segment '' @ py_str (int i + 1) @ '' -->\<newline>''
                   @ ''  <CutElements refVideoFile="0" StartPosition="'' @ py_str (py_int s)
                   @ ''" EndPosition="'' @ py_str (py_int s + py_int c - 1) @ ''">\<newline>''
                   @ ''    <cutAudioFiles refAudioFile="1" />\<newline>''
                   @ ''  </CutElements>\<newline>'')
                   (enumerate 0 ps))\<close>
    unfolding concat_write_segments by (simp add: split_def cut_element_writes_def)
  have doc: \<open>concat (cpf_writes video_filepath audio_filepath (map ?seg ps)) =
      ''<?xml version="1.0" standalone="yes"?>\<newline>''
               @ ''<StateData xmlns="http://cuttermaran.kickme.to/StateData.xsd">\<newline>''
               @ ''  <usedVideoFiles FileID="0" FileName="'' @ video_filepath @ ''" />\<newline>''
               @ ''  <usedAudioFiles FileID="1" FileName="'' @ audio_filepath @ ''" StartDelay="0" />\<newline>''
               @ concat (map (\<lambda>(i, s, c).
                     ''  <!-- Segment '' @ py_str (int i + 1) @ '' -->\<newline>''
                   @ ''  <CutElements refVideoFile="0" StartPosition="'' @ py_str (py_int s)
                   @ ''" EndPosition="'' @ py_str (py_int s + py_int c - 1) @ ''">\<newline>''
                   @ ''    <cutAudioFiles refAudioFile="1" />\<newline>''
                   @ ''  </CutElements>\<newline>'')
                   (enumerate 0 ps))
               @ ''  <CurrentFiles refVideoFiles="0">\<newline>''
               @ ''    <currentAudioFiles refAudioFiles="1" />\<newline>''
               @ ''  </CurrentFiles>\<newline>''
               @ ''</StateData>\<newline>''\<close>
    unfolding cpf_writes_def concat_append blocks
    by (simp add: header_writes_def footer_writes_def)
  show ?thesis
    using parse files_write_cpf_file [OF assms(3)]
    unfolding doc [symmetric]
    by (simp add: convert_vdscript_to_cpf_def)
qed

theorem order_preserved_witness:
  \<open>parse_vdscript
     \<lparr>files = [''cuts.vdscript'' \<mapsto>
        concat (map (\<lambda>(s, c). statement s c @ [CHR ''\<newline>''])
          [(''300'', ''10''), (''100'', ''50''), (''300'', ''10''), (''310'', ''5'')])],
      stdout = []\<rparr> ''cuts.vdscript''
   = Inr [\<lparr>start_frame = 300, end_frame = 309\<rparr>, \<lparr>start_frame = 100, end_frame = 149\<rparr>,
          \<lparr>start_frame = 300, end_frame = 309\<rparr>, \<lparr>start_frame = 310, end_frame = 314\<rparr>]
   \<and> convert_vdscript_to_cpf
     \<lparr>files = [''cuts.vdscript'' \<mapsto>
        concat (map (\<lambda>(s, c). statement s c @ [CHR ''\<newline>''])
          [(''300'', ''10''), (''100'', ''50''), (''300'', ''10''), (''310'', ''5'')])],
      stdout = []\<rparr> ''cuts.vdscript'' ''out.cpf'' ''test.m2v'' ''test.mp2''
   = Inr (write_cpf_file
     \<lparr>files = [''cuts.vdscript'' \<mapsto>
        concat (map (\<lambda>(s, c). statement s c @ [CHR ''\<newline>''])
          [(''300'', ''10''), (''100'', ''50''), (''300'', ''10''), (''310'', ''5'')])],
      stdout = []\<rparr> ''out.cpf'' ''test.m2v'' ''test.mp2''
      [\<lparr>start_frame = 300, end_frame = 309\<rparr>, \<lparr>start_frame = 100, end_frame = 149\<rparr>,
       \<lparr>start_frame = 300, end_frame = 309\<rparr>, \<lparr>start_frame = 310, end_frame = 314\<rparr>])
   \<and> files (write_cpf_file
     \<lparr>files = [''cuts.vdscript'' \<mapsto>
        concat (map (\<lambda>(s, c). statement s c @ [CHR ''\<newline>''])
          [(''300'', ''10''), (''100'', ''50''), (''300'', ''10''), (''310'', ''5'')])],
      stdout = []\<rparr> ''out.cpf'' ''test.m2v'' ''test.mp2''
      [\<lparr>start_frame = 300, end_frame = 309\<rparr>, \<lparr>start_frame = 100, end_frame = 149\<rparr>,
       \<lparr>start_frame = 300, end_frame = 309\<rparr>, \<lparr>start_frame = 310, end_frame = 314\<rparr>]) ''out.cpf''
   = Some (''<?xml version="1.0" standalone="yes"?>\<newline>''
      @ ''<StateData xmlns="http://cuttermaran.kickme.to/StateData.xsd">\<newline>''
      @ ''  <usedVideoFiles FileID="0" FileName="test.m2v" />\<newline>''
      @ ''  <usedAudioFiles FileID="1" FileName="test.mp2" StartDelay="0" />\<newline>''
      @ ''  <!-- Segment 1 -->\<newline>''
      @ ''  <CutElements refVideoFile="0" StartPosition="300" EndPosition="309">\<newline>''
      @ ''    <cutAudioFiles refAudioFile="1" />\<newline>''
      @ ''  </CutElements>\<newline>''
      @ ''  <!-- Segment 2 -->\<newline>''
      @ ''  <CutElements refVideoFile="0" StartPosition="100" EndPosition="149">\<newline>''
      @ ''    <cutAudioFiles refAudioFile="1" />\<newline>''
      @ ''  </CutElements>\<newline>''
      @ ''  <!-- Segment 3 -->\<newline>''
      @ ''  <CutElements refVideoFile="0" StartPosition="300" EndPosition="309">\<newline>''
      @ ''    <cutAudioFiles refAudioFile="1" />\<newline>''
      @ ''  </CutElements>\<newline>''
      @ ''  <!-- Segment 4 -->\<newline>''
      @ ''  <CutElements refVideoFile="0" StartPosition="310" EndPosition="314">\<newline>''
      @ ''    <cutAudioFiles refAudioFile="1" />\<newline>''
      @ ''  </CutElements>\<newline>''
      @ ''  <CurrentFiles refVideoFiles="0">\<newline>''
      @ ''    <currentAudioFiles refAudioFiles="1" />\<newline>''
      @ ''  </CurrentFiles>\<newline>''
      @ ''</StateData>\<newline>'')\<close>
proof -
  let ?ps = "[(''300'', ''10''), (''100'', ''50''), (''300'', ''10''), (''310'', ''5'')]"
  let ?w = "\<lparr>files = [''cuts.vdscript'' \<mapsto>
        concat (map (\<lambda>(s, c). statement s c @ [CHR ''\<newline>'']) ?ps)], stdout = []\<rparr>"
  have h1: "list_all (\<lambda>(s, c). digits s \<and> digits c) ?ps"
    by (simp add: digits_def is_digit_def)
  have h2: "files ?w ''cuts.vdscript'' =
      Some (concat (map (\<lambda>(s, c). statement s c @ [CHR ''\<newline>'']) ?ps))"
    by simp
  have h3: "files ?w ''out.cpf'' = None" by simp
  have v: "py_int ''300'' = 300" "py_int ''10'' = 10" "py_int ''100'' = 100" "py_int ''50'' = 50"
      "py_int ''310'' = 310" "py_int ''5'' = 5"
    by (simp_all add: py_int_def digit_value_def)
  have s: "py_str 1 = ''1''" "py_str 2 = ''2''" "py_str 3 = ''3''" "py_str 4 = ''4''"
      "py_str 300 = ''300''" "py_str 309 = ''309''" "py_str 100 = ''100''" "py_str 149 = ''149''"
      "py_str 310 = ''310''" "py_str 314 = ''314''"
    by (simp_all add: py_str_def str_nat.simps)
  have e: "enumerate 0 ?ps =
      [(0, ''300'', ''10''), (1, ''100'', ''50''), (2, ''300'', ''10''), (3, ''310'', ''5'')]"
    by (simp add: enumerate_eq_zip upt_rec)
  from order_preserved [OF h1 h2 h3, of "''test.m2v''" "''test.mp2''"] obtain cut_segments w' where
    "parse_vdscript ?w ''cuts.vdscript'' = Inr cut_segments"
    "cut_segments =
       map (\<lambda>(s, c). \<lparr>start_frame = py_int s, end_frame = py_int s + py_int c - 1\<rparr>) ?ps"
    "convert_vdscript_to_cpf ?w ''cuts.vdscript'' ''out.cpf'' ''test.m2v'' ''test.mp2'' = Inr w'"
    "w' = write_cpf_file ?w ''out.cpf'' ''test.m2v'' ''test.mp2'' cut_segments"
    \<open>files w' ''out.cpf'' =
             Some (''<?xml version="1.0" standalone="yes"?>\<newline>''
               @ ''<StateData xmlns="http://cuttermaran.kickme.to/StateData.xsd">\<newline>''
               @ ''  <usedVideoFiles FileID="0" FileName="'' @ ''test.m2v'' @ ''" />\<newline>''
               @ ''  <usedAudioFiles FileID="1" FileName="'' @ ''test.mp2'' @ ''" StartDelay="0" />\<newline>''
               @ concat (map (\<lambda>(i, s, c).
                     ''  <!-- Segment '' @ py_str (int i + 1) @ '' -->\<newline>''
                   @ ''  <CutElements refVideoFile="0" StartPosition="'' @ py_str (py_int s)
                   @ ''" EndPosition="'' @ py_str (py_int s + py_int c - 1) @ ''">\<newline>''
                   @ ''    <cutAudioFiles refAudioFile="1" />\<newline>''
                   @ ''  </CutElements>\<newline>'')
                   (enumerate 0 ?ps))
               @ ''  <CurrentFiles refVideoFiles="0">\<newline>''
               @ ''    <currentAudioFiles refAudioFiles="1" />\<newline>''
               @ ''  </CurrentFiles>\<newline>''
               @ ''</StateData>\<newline>'')\<close>
    by blast
  then show ?thesis
    unfolding e by (simp add: v s)
qed

section \<open>One cut-element block\<close>

text \<open>
  C7: for the interval with start 412 and end 619, at any position \<open>i\<close> of the
  sequence, the block written is the comment \<open>Segment i+1\<close>, the opening tag with
  \<open>refVideoFile="0" StartPosition="412" EndPosition="619"\<close>, one
  \<open>cutAudioFiles\<close> element with \<open>refAudioFile="1"\<close>, and the closing tag; the
  file created holds it between the blocks of the intervals before and after.
\<close>

theorem cut_element_attributes:
  assumes "files w output_filepath = None"
    and "i < length cut_segments"
    and "cut_segments ! i = \<lparr>start_frame = 412, end_frame = 619\<rparr>"
  shows \<open>cut_element_writes i (cut_segments ! i) =
           [''  <!-- Segment '' @ py_str (int i + 1) @ '' -->\<newline>'',
            ''  <CutElements refVideoFile="0" StartPosition="412" EndPosition="619">\<newline>'',
            ''    <cutAudioFiles refAudioFile="1" />\<newline>'',
            ''  </CutElements>\<newline>'']
         \<and> files (write_cpf_file w output_filepath video_filepath audio_filepath cut_segments)
             output_filepath =
           Some (concat (header_writes video_filepath audio_filepath)
                 @ concat (write_segments 0 (take i cut_segments))
                 @ ''  <!-- Segment '' @ py_str (int i + 1) @ '' -->\<newline>''
                 @ ''  <CutElements refVideoFile="0" StartPosition="412" EndPosition="619">\<newline>''
                 @ ''    <cutAudioFiles refAudioFile="1" />\<newline>''
                 @ ''  </CutElements>\<newline>''
                 @ concat (write_segments (Suc i) (drop (Suc i) cut_segments))
                 @ concat footer_writes)\<close>
proof -
  have block: \<open>cut_element_writes i (cut_segments ! i) =
           [''  <!-- Segment '' @ py_str (int i + 1) @ '' -->\<newline>'',
            ''  <CutElements refVideoFile="0" StartPosition="412" EndPosition="619">\<newline>'',
            ''    <cutAudioFiles refAudioFile="1" />\<newline>'',
            ''  </CutElements>\<newline>'']\<close>
    unfolding assms(3) by (simp add: cut_element_writes_def py_str_412 py_str_619)
  have "write_segments 0 cut_segments =
      write_segments 0 (take i cut_segments) @ cut_element_writes i (cut_segments ! i) @
      write_segments (Suc i) (drop (Suc i) cut_segments)"
    using write_segments_nth [OF assms(2), of 0] by simp
  then have \<open>concat (cpf_writes video_filepath audio_filepath cut_segments) =
      concat (header_writes video_filepath audio_filepath)
                 @ concat (write_segments 0 (take i cut_segments))
                 @ ''  <!-- Segment '' @ py_str (int i + 1) @ '' -->\<newline>''
                 @ ''  <CutElements refVideoFile="0" StartPosition="412" EndPosition="619">\<newline>''
                 @ ''    <cutAudioFiles refAudioFile="1" />\<newline>''
                 @ ''  </CutElements>\<newline>''
                 @ concat (write_segments (Suc i) (drop (Suc i) cut_segments))
                 @ concat footer_writes\<close>
    unfolding cpf_writes_def block by simp
  then show ?thesis
    using block files_write_cpf_file [OF assms(1)] by simp
qed

theorem cut_element_attributes_witness:
  \<open>files (write_cpf_file \<lparr>files = Map.empty, stdout = []\<rparr> ''out.cpf'' ''test.m2v'' ''test.mp2''
       [\<lparr>start_frame = 412, end_frame = 619\<rparr>]) ''out.cpf'' =
    Some (''<?xml version="1.0" standalone="yes"?>\<newline>''
      @ ''<StateData xmlns="http://cuttermaran.kickme.to/StateData.xsd">\<newline>''
      @ ''  <usedVideoFiles FileID="0" FileName="test.m2v" />\<newline>''
      @ ''  <usedAudioFiles FileID="1" FileName="test.mp2" StartDelay="0" />\<newline>''
      @ ''  <!-- Segment 1 -->\<newline>''
      @ ''  <CutElements refVideoFile="0" StartPosition="412" EndPosition="619">\<newline>''
      @ ''    <cutAudioFiles refAudioFile="1" />\<newline>''
      @ ''  </CutElements>\<newline>''
      @ ''  <CurrentFiles refVideoFiles="0">\<newline>''
      @ ''    <currentAudioFiles refAudioFiles="1" />\<newline>''
      @ ''  </CurrentFiles>\<newline>''
      @ ''</StateData>\<newline>'')\<close>
  using cut_element_attributes [of "\<lparr>files = Map.empty, stdout = []\<rparr>" "''out.cpf''" 0
      "[\<lparr>start_frame = 412, end_frame = 619\<rparr>]" "''test.m2v''" "''test.mp2''"]
  by (simp add: header_writes_def footer_writes_def py_str_def str_nat.simps)

section \<open>A source without a matching line\<close>

text \<open>
  C8: when no line of the source text matches, \<open>parse_vdscript\<close> returns the empty
  sequence and no error, and the file written for it is the XML declaration, the
  root \<open>StateData\<close> element with one \<open>usedVideoFiles\<close> entry (\<open>FileID="0"\<close>), one
  \<open>usedAudioFiles\<close> entry (\<open>FileID="1"\<close>), no cut-element block, the
  \<open>CurrentFiles\<close> block, and the closing tag.
\<close>

theorem no_match_empty_document:
  assumes "files w vdscript_filepath = Some text"
    and "\<forall>line\<in>set (readlines text). subset_pattern_match line = None"
    and "files w cpf_filepath = None"
  shows \<open>parse_vdscript w vdscript_filepath = Inr []
       \<and> convert_vdscript_to_cpf w vdscript_filepath cpf_filepath video_filepath audio_filepath =
           Inr (write_cpf_file w cpf_filepath video_filepath audio_filepath [])
       \<and> files (write_cpf_file w cpf_filepath video_filepath audio_filepath []) cpf_filepath =
           Some (''<?xml version="1.0" standalone="yes"?>\<newline>''
             @ ''<StateData xmlns="http://cuttermaran.kickme.to/StateData.xsd">\<newline>''
             @ ''  <usedVideoFiles FileID="0" FileName="'' @ video_filepath @ ''" />\<newline>''
             @ ''  <usedAudioFiles FileID="1" FileName="'' @ audio_filepath @ ''" StartDelay="0" />\<newline>''
             @ ''  <CurrentFiles refVideoFiles="0">\<newline>''
             @ ''    <currentAudioFiles refAudioFiles="1" />\<newline>''
             @ ''  </CurrentFiles>\<newline>''
             @ ''</StateData>\<newline>'')\<close>
proof -
  have parse: "parse_vdscript w vdscript_filepath = Inr []"
    unfolding parse_vdscript_Some [OF assms(1)]
    by (simp add: collect_segments_no_match [OF assms(2)])
  then have "convert_vdscript_to_cpf w vdscript_filepath cpf_filepath video_filepath audio_filepath =
           Inr (write_cpf_file w cpf_filepath video_filepath audio_filepath [])"
    by (simp add: convert_vdscript_to_cpf_def)
  with parse show ?thesis
    by (simp add: files_write_cpf_file [OF assms(3)] cpf_writes_def header_writes_def
        footer_writes_def)
qed

theorem no_match_empty_document_witness:
  \<open>parse_vdscript
     \<lparr>files = [''cuts.vdscript'' \<mapsto> ''VirtualDub.video.SetMode(0);\<newline> VirtualDub.subset.AddRange(1,2);\<newline>VirtualDub.subset.AddRange(1,2)\<newline>''],
      stdout = []\<rparr> ''cuts.vdscript'' = Inr []
   \<and> files (write_cpf_file
     \<lparr>files = [''cuts.vdscript'' \<mapsto> ''VirtualDub.video.SetMode(0);\<newline> VirtualDub.subset.AddRange(1,2);\<newline>VirtualDub.subset.AddRange(1,2)\<newline>''],
      stdout = []\<rparr> ''out.cpf'' ''test.m2v'' ''test.mp2'' []) ''out.cpf'' =
      Some (''<?xml version="1.0" standalone="yes"?>\<newline>''
             @ ''<StateData xmlns="http://cuttermaran.kickme.to/StateData.xsd">\<newline>''
             @ ''  <usedVideoFiles FileID="0" FileName="test.m2v" />\<newline>''
             @ ''  <usedAudioFiles FileID="1" FileName="test.mp2" StartDelay="0" />\<newline>''
             @ ''  <CurrentFiles refVideoFiles="0">\<newline>''
             @ ''    <currentAudioFiles refAudioFiles="1" />\<newline>''
             @ ''  </CurrentFiles>\<newline>''
             @ ''</StateData>\<newline>'')\<close>
proof -
  let ?text = "''VirtualDub.video.SetMode(0);\<newline> VirtualDub.subset.AddRange(1,2);\<newline>VirtualDub.subset.AddRange(1,2)\<newline>''"
  let ?w = "\<lparr>files = [''cuts.vdscript'' \<mapsto> ?text], stdout = []\<rparr>"
  have h1: "files ?w ''cuts.vdscript'' = Some ?text" by simp
  have h2: "\<forall>line\<in>set (readlines ?text). subset_pattern_match line = None"
    by (simp add: subset_pattern_match_def match_digits_def is_digit_def)
  have h3: "files ?w ''out.cpf'' = None" by simp
  show ?thesis
    using no_match_empty_document [OF h1 h2 h3, of "''test.m2v''" "''test.mp2''"] by simp
qed

section \<open>The paths in the header\<close>

text \<open>
  C9: the video path and the audio path stand in the two \<open>FileName\<close> attributes
  exactly as they were given, whatever characters they hold; nothing is escaped.
\<close>

theorem paths_written_verbatim:
  assumes "files w output_filepath = None"
  shows \<open>files (write_cpf_file w output_filepath video_filepath audio_filepath cut_segments)
           output_filepath =
         Some (''<?xml version="1.0" standalone="yes"?>\<newline>''
           @ ''<StateData xmlns="http://cuttermaran.kickme.to/StateData.xsd">\<newline>''
           @ ''  <usedVideoFiles FileID="0" FileName="'' @ video_filepath @ ''" />\<newline>''
           @ ''  <usedAudioFiles FileID="1" FileName="'' @ audio_filepath @ ''" StartDelay="0" />\<newline>''
           @ concat (write_segments 0 cut_segments)
           @ concat footer_writes)
       \<and> header_writes video_filepath audio_filepath ! 2 =
           ''  <usedVideoFiles FileID="0" FileName="'' @ video_filepath @ ''" />\<newline>''
       \<and> header_writes video_filepath audio_filepath ! 3 =
           ''  <usedAudioFiles FileID="1" FileName="'' @ audio_filepath @ ''" StartDelay="0" />\<newline>''\<close>
  by (simp add: files_write_cpf_file [OF assms] cpf_writes_def header_writes_def)

theorem paths_written_verbatim_witness:
  \<open>files (write_cpf_file \<lparr>files = Map.empty, stdout = []\<rparr> ''out.cpf''
      ''Tom & Jerry <"cut">.m2v'' ''a<b>&"c".mp2'' []) ''out.cpf'' =
      Some (''<?xml version="1.0" standalone="yes"?>\<newline>''
             @ ''<StateData xmlns="http://cuttermaran.kickme.to/StateData.xsd">\<newline>''
             @ ''  <usedVideoFiles FileID="0" FileName="Tom & Jerry <"cut">.m2v" />\<newline>''
             @ ''  <usedAudioFiles FileID="1" FileName="a<b>&"c".mp2" StartDelay="0" />\<newline>''
             @ ''  <CurrentFiles refVideoFiles="0">\<newline>''
             @ ''    <currentAudioFiles refAudioFiles="1" />\<newline>''
             @ ''  </CurrentFiles>\<newline>''
             @ ''</StateData>\<newline>'')\<close>
  using paths_written_verbatim [of "\<lparr>files = Map.empty, stdout = []\<rparr>" "''out.cpf''"
      \<open>''Tom & Jerry <"cut">.m2v''\<close> \<open>''a<b>&"c".mp2''\<close> "[]"]
  by (simp add: footer_writes_def)

section \<open>Characters after the statement\<close>

text \<open>
  C10: a line that begins with the statement and goes on with any characters
  after the semicolon is matched, with the statement's start and count as its
  groups; the loop of either version appends the interval computed from them,
  and a file holding only that line yields exactly that interval.
\<close>

theorem match_ignores_trailing:
  assumes "digits s" and "digits c"
  shows "subset_pattern_match (statement s c @ trailing) = Some (s, c)
       \<and> collect_segments cut_segments ((statement s c @ trailing) # lines) =
           collect_segments
             (cut_segments @ [\<lparr>start_frame = py_int s, end_frame = py_int s + py_int c - 1\<rparr>]) lines
       \<and> collect_segments_v1_0_0 cut_segments ((statement s c @ trailing) # lines) =
           collect_segments_v1_0_0
             (cut_segments @ [\<lparr>start_frame = py_int s, end_frame = py_int s + py_int c\<rparr>]) lines
       \<and> (CHR ''\<newline>'' \<notin> set trailing \<and>
            files w filepath = Some (statement s c @ trailing @ [CHR ''\<newline>''])
          \<longrightarrow> parse_vdscript w filepath =
                Inr [\<lparr>start_frame = py_int s, end_frame = py_int s + py_int c - 1\<rparr>] \<and>
              parse_vdscript_v1_0_0 w filepath =
                Inr [\<lparr>start_frame = py_int s, end_frame = py_int s + py_int c\<rparr>])"
proof -
  have m: "\<And>r. subset_pattern_match (statement s c @ r) = Some (s, c)"
    by (rule subset_pattern_match_statement [OF assms])
  have whole: "parse_vdscript w filepath =
                Inr [\<lparr>start_frame = py_int s, end_frame = py_int s + py_int c - 1\<rparr>] \<and>
              parse_vdscript_v1_0_0 w filepath =
                Inr [\<lparr>start_frame = py_int s, end_frame = py_int s + py_int c\<rparr>]"
    if a: "CHR ''\<newline>'' \<notin> set trailing \<and>
            files w filepath = Some (statement s c @ trailing @ [CHR ''\<newline>''])"
  proof -
    let ?l = "statement s c @ trailing"
    from a statement_no_newline [OF assms] have "CHR ''\<newline>'' \<notin> set ?l" by simp
    then have r: "readlines (?l @ [CHR ''\<newline>'']) = [?l @ [CHR ''\<newline>'']]"
      by (rule readlines_single)
    from a have f: "files w filepath = Some (?l @ [CHR ''\<newline>''])" by simp
    show ?thesis
      unfolding parse_vdscript_Some [OF f] parse_vdscript_v1_0_0_Some [OF f] r
      using m [of "trailing @ [CHR ''\<newline>'']"] by simp
  qed
  show ?thesis
    using m [of trailing] whole by simp
qed

theorem match_ignores_trailing_witness:
  "subset_pattern_match (statement ''412'' ''208'' @ '' // first cut'') = Some (''412'', ''208'')
   \<and> collect_segments [] [statement ''412'' ''208'' @ '' // first cut''] =
       [\<lparr>start_frame = 412, end_frame = 619\<rparr>]
   \<and> parse_vdscript
       \<lparr>files = [''cuts.vdscript'' \<mapsto> statement ''412'' ''208'' @ '' // first cut'' @ ''\<newline>''],
        stdout = []\<rparr> ''cuts.vdscript'' = Inr [\<lparr>start_frame = 412, end_frame = 619\<rparr>]
   \<and> parse_vdscript_v1_0_0
       \<lparr>files = [''cuts.vdscript'' \<mapsto> statement ''412'' ''208'' @ '' // first cut'' @ ''\<newline>''],
        stdout = []\<rparr> ''cuts.vdscript'' = Inr [\<lparr>start_frame = 412, end_frame = 620\<rparr>]"
proof -
  have d: "digits ''412''" "digits ''208''"
    by (simp_all add: digits_def is_digit_def)
  have v: "py_int ''412'' = 412" "py_int ''208'' = 208"
    by (simp_all add: py_int_def digit_value_def)
  show ?thesis
    using match_ignores_trailing [OF d, of "'' // first cut''" "[]" "[]"
        "\<lparr>files = [''cuts.vdscript'' \<mapsto> statement ''412'' ''208'' @ '' // first cut'' @ ''\<newline>''],
          stdout = []\<rparr>" "''cuts.vdscript''"] v
    by simp
qed

end
